theory Spec2Isabelle
  imports Complex_Main "HOL-Library.Multiset"
begin

section \<open>The data-processing core of draw\_curve\<close>

text \<open>
  This theory embeds \<^verbatim>\<open>utils/data_processor.py\<close>: the parser
  \<^verbatim>\<open>parse_input_data\<close>, the smoother \<^verbatim>\<open>smooth_curve\<close> and
  \<^verbatim>\<open>calculate_statistics\<close>.

  Conventions of the embedding.
  \<^item> A Python \<^verbatim>\<open>str\<close> is a \<open>string\<close> whose characters are the code points
    below 256.
  \<^item> A Python \<^verbatim>\<open>float\<close> in the parser and the statistics is a \<open>pyfloat\<close>: NaN, an
    infinity, or a finite value given by a rational number. The parser only compares
    floats; the arithmetic of the statistics (\<^verbatim>\<open>sum\<close> and the division), which
    rounds, is a parameter. In the smoother a float is a rational number and the
    arithmetic of the sample points is exact.
  \<^item> Every \<^verbatim>\<open>raise\<close> is a value \<open>Inl e\<close>. All exceptions of the module are
    \<^verbatim>\<open>ValueError\<close>s that differ in their message; one constructor of \<open>error\<close>
    stands for each message, and carries what the message interpolates.
  \<^item> The builtins and library routines the module calls (\<^verbatim>\<open>float\<close>,
    \<^verbatim>\<open>numpy.linspace\<close>, the \<^verbatim>\<open>scipy.interpolate\<close> classes) are not
    part of the module. \<^verbatim>\<open>float\<close>, the float arithmetic of the statistics and the
    interpolation library are parameters of the functions that call them.
\<close>

subsection \<open>Errors\<close>

text \<open>
  \<open>cause\<close> is the exception caught by \<^verbatim>\<open>except ValueError as e\<close> in the parser's
  loop, whose \<^verbatim>\<open>str(e)\<close> becomes the tail of the re-raised message:
  \<^item> \<open>LineFormat n line\<close>: the module's own \<^verbatim>\<open>ValueError(f"...{line_num}...: {line}")\<close>
    for a line with fewer than two parts;
  \<^item> \<open>FloatConversion tok\<close>: the \<^verbatim>\<open>ValueError\<close> of \<^verbatim>\<open>float(tok)\<close>, whose message
    \<^verbatim>\<open>could not convert string to float: 'tok'\<close> quotes the argument.
\<close>

datatype cause = LineFormat nat string | FloatConversion string

type_synonym lib_exn = string

datatype error =
    ParseError nat cause
  | InsufficientData
  | InsufficientPoints
  | UnsupportedMethod string
  | EmptyInput
  | LibraryError lib_exn

text \<open>The piece of the input text that the message of a \<open>cause\<close> quotes.\<close>

fun quoted_text :: "cause \<Rightarrow> string" where
  "quoted_text (LineFormat n line) = line"
| "quoted_text (FloatConversion tok) = tok"

subsection \<open>Float values and their comparison\<close>

text \<open>
  The values of \<^verbatim>\<open>float\<close>: NaN, the two infinities and the finite values. The
  comparison \<^verbatim>\<open><\<close> is false whenever an operand is NaN, and \<^verbatim>\<open><=\<close> likewise;
  on the other values they are the usual order.
\<close>

datatype pyfloat = NaN | MInf | Num rat | PInf

instantiation pyfloat :: ord
begin

fun less_pyfloat :: "pyfloat \<Rightarrow> pyfloat \<Rightarrow> bool" where
  "less_pyfloat NaN b = False"
| "less_pyfloat a NaN = False"
| "less_pyfloat MInf MInf = False"
| "less_pyfloat MInf b = True"
| "less_pyfloat (Num x) (Num y) = (x < y)"
| "less_pyfloat (Num x) PInf = True"
| "less_pyfloat (Num x) MInf = False"
| "less_pyfloat PInf b = False"

definition less_eq_pyfloat :: "pyfloat \<Rightarrow> pyfloat \<Rightarrow> bool" where
  "less_eq_pyfloat a b = (a < b \<or> (a = b \<and> a \<noteq> NaN))"

instance ..

end

subsection \<open>String primitives\<close>

text \<open>
  \<^verbatim>\<open>str.isspace\<close> on a code point below 256: the characters 9 to 13, 28 to 32,
  133 and 160.
\<close>

definition is_space :: "char \<Rightarrow> bool" where
  "is_space c =
     (let n = (of_char c :: nat)
      in (9 \<le> n \<and> n \<le> 13) \<or> (28 \<le> n \<and> n \<le> 32) \<or> n = 133 \<or> n = 160)"

text \<open>\<^verbatim>\<open>s.strip()\<close>: leading and trailing whitespace removed.\<close>

definition strip :: "string \<Rightarrow> string" where
  "strip s = rev (dropWhile is_space (rev (dropWhile is_space s)))"

text \<open>\<^verbatim>\<open>s.split(sep)\<close> for a one-character separator: never an empty list.\<close>

fun split_on :: "char \<Rightarrow> string \<Rightarrow> string list" where
  "split_on sep [] = [[]]"
| "split_on sep (c # cs) =
     (if c = sep then [] # split_on sep cs
      else (let ts = split_on sep cs in (c # hd ts) # tl ts))"

abbreviation newline :: char where
  "newline \<equiv> CHR 0x0A"

abbreviation tab :: char where
  "tab \<equiv> CHR 0x09"

subsection \<open>The parser\<close>

text \<open>The list \<^verbatim>\<open>[' ', ',', '\t', ';']\<close> of the separator loop.\<close>

definition separators :: "char list" where
  "separators = [CHR '' '', CHR '','', tab, CHR '';'']"

text \<open>
  The separator loop
  \<^verbatim>\<open>
  parts = []
  for sep in [' ', ',', '\t', ';']:
      parts = line.split(sep)
      if len(parts) >= 2:
          break
  \<close>
  with the loop variable \<^verbatim>\<open>parts\<close> as an accumulator.
\<close>

fun split_loop :: "char list \<Rightarrow> string \<Rightarrow> string list \<Rightarrow> string list" where
  "split_loop [] line parts = parts"
| "split_loop (sep # seps) line parts =
     (let parts' = split_on sep line
      in if length parts' \<ge> 2 then parts' else split_loop seps line parts')"

definition split_line :: "string \<Rightarrow> string list" where
  "split_line line = split_loop separators line []"

text \<open>What one iteration of the loop over the lines does.\<close>

datatype 'v line_result = Skipped | Point 'v 'v | Failed error

text \<open>
  The body of the loop over \<^verbatim>\<open>enumerate(lines, 1)\<close>. \<open>float_of\<close> is the builtin
  \<^verbatim>\<open>float\<close>, \<open>None\<close> where it raises \<^verbatim>\<open>ValueError\<close>. \<^verbatim>\<open>parts[0]\<close> is
  converted before \<^verbatim>\<open>parts[1]\<close>; both exist when the length test has passed.
\<close>

definition parse_line :: "(string \<Rightarrow> 'v option) \<Rightarrow> nat \<Rightarrow> string \<Rightarrow> 'v line_result" where
  "parse_line float_of line_num raw =
     (let line = strip raw
      in if line = [] \<or> take 1 line = ''#'' then Skipped
         else (let parts = split_line line
               in if length parts < 2
                  then Failed (ParseError line_num (LineFormat line_num line))
                  else (case float_of (parts ! 0) of
                          None \<Rightarrow> Failed (ParseError line_num (FloatConversion (parts ! 0)))
                        | Some x \<Rightarrow>
                            (case float_of (parts ! 1) of
                               None \<Rightarrow> Failed (ParseError line_num (FloatConversion (parts ! 1)))
                             | Some y \<Rightarrow> Point x y))))"

text \<open>
  The loop over the lines, with \<^verbatim>\<open>x_list\<close> and \<^verbatim>\<open>y_list\<close> as accumulators; the
  first failing line ends it.
\<close>

fun parse_lines ::
  "(string \<Rightarrow> 'v option) \<Rightarrow> nat \<Rightarrow> string list \<Rightarrow> 'v list \<Rightarrow> 'v list \<Rightarrow> error + ('v list \<times> 'v list)"
where
  "parse_lines float_of line_num [] x_list y_list = Inr (x_list, y_list)"
| "parse_lines float_of line_num (raw # rest) x_list y_list =
     (case parse_line float_of line_num raw of
        Skipped \<Rightarrow> parse_lines float_of (Suc line_num) rest x_list y_list
      | Failed e \<Rightarrow> Inl e
      | Point x y \<Rightarrow> parse_lines float_of (Suc line_num) rest (x_list @ [x]) (y_list @ [y]))"

text \<open>\<^verbatim>\<open>all(x_list[i] < x_list[i+1] for i in range(len(x_list)-1))\<close>.\<close>

fun strictly_increasing :: "'v::ord list \<Rightarrow> bool" where
  "strictly_increasing (a # b # xs) = (a < b \<and> strictly_increasing (b # xs))"
| "strictly_increasing xs = True"

text \<open>The lines the loop runs over: \<^verbatim>\<open>input_text.strip().split('\n')\<close>.\<close>

definition lines_of :: "string \<Rightarrow> string list" where
  "lines_of input_text = split_on newline (strip input_text)"

text \<open>
  The builtin \<^verbatim>\<open>sorted(..., key=...)\<close>. It compares keys with \<^verbatim>\<open><\<close> only. On
  keys that \<^verbatim>\<open><\<close> orders totally it is a stable sort, whose result is unique. It
  first takes the longest prefix without a descent (no item smaller than the one before
  it) as a run, so a list without any descent is returned as it is, whatever its keys.
  The model is the stable insertion sort by \<^verbatim>\<open><\<close>, which has both properties. For
  keys with NaN and a list with a descent the builtin's result depends on the comparisons
  its merge strategy happens to make; no theorem below is about that case.
\<close>

fun insert_by :: "('a \<Rightarrow> 'k::ord) \<Rightarrow> 'a \<Rightarrow> 'a list \<Rightarrow> 'a list" where
  "insert_by key x [] = [x]"
| "insert_by key x (y # ys) = (if key y < key x then y # insert_by key x ys else x # y # ys)"

definition py_sorted :: "('a \<Rightarrow> 'k::ord) \<Rightarrow> 'a list \<Rightarrow> 'a list" where
  "py_sorted key xs = foldr (insert_by key) xs []"

text \<open>\<^verbatim>\<open>parse_input_data\<close>.\<close>

definition parse_input_data ::
  "(string \<Rightarrow> 'v option) \<Rightarrow> string \<Rightarrow> error + ('v::ord list \<times> 'v list)"
where
  "parse_input_data float_of input_text =
     (case parse_lines float_of 1 (lines_of input_text) [] [] of
        Inl e \<Rightarrow> Inl e
      | Inr (x_list, y_list) \<Rightarrow>
          if length x_list < 2 then Inl InsufficientData
          else if \<not> strictly_increasing x_list
          then (let sorted_pairs = py_sorted fst (zip x_list y_list)
                in Inr (map fst sorted_pairs, map snd sorted_pairs))
          else Inr (x_list, y_list))"

subsection \<open>A model of \<^verbatim>\<open>float\<close> on decimal literals\<close>

text \<open>
  The concrete examples need the value of \<^verbatim>\<open>float\<close> on particular tokens.
  \<open>py_float\<close> reads a decimal literal exactly: optional surrounding whitespace, an
  optional sign, digits with an optional fraction (\<^verbatim>\<open>12\<close>, \<^verbatim>\<open>12.\<close>, \<^verbatim>\<open>.5\<close>,
  \<^verbatim>\<open>1.5\<close>) and an optional exponent, with the exact value of the literal where
  \<^verbatim>\<open>float\<close> rounds it. \<open>py_float_ext\<close> adds the spellings of NaN and of the
  infinities. Digit groups with underscores are outside the model. Both are used on
  short tokens only; every general theorem below is about an arbitrary \<open>float_of\<close>.
\<close>

definition is_digit :: "char \<Rightarrow> bool" where
  "is_digit c = (let n = (of_char c :: nat) in 48 \<le> n \<and> n \<le> 57)"

definition digits_value :: "string \<Rightarrow> nat" where
  "digits_value ds = foldl (\<lambda>a c. 10 * a + ((of_char c :: nat) - 48)) 0 ds"

text \<open>The whitespace that \<^verbatim>\<open>float\<close> ignores around the literal.\<close>

definition is_float_space :: "char \<Rightarrow> bool" where
  "is_float_space c =
     (let n = (of_char c :: nat) in (9 \<le> n \<and> n \<le> 13) \<or> n = 32 \<or> n = 133 \<or> n = 160)"

text \<open>An optional sign: the sign as \<open>True\<close> for minus, and the rest.\<close>

fun take_sign :: "string \<Rightarrow> bool \<times> string" where
  "take_sign [] = (False, [])"
| "take_sign (c # cs) =
     (if c = CHR ''-'' then (True, cs) else if c = CHR ''+'' then (False, cs) else (False, c # cs))"

text \<open>The exponent part: \<open>Some 0\<close> when absent, \<open>None\<close> when malformed.\<close>

fun exponent_of :: "string \<Rightarrow> int option" where
  "exponent_of [] = Some 0"
| "exponent_of (c # cs) =
     (if c = CHR ''e'' \<or> c = CHR ''E''
      then (let (neg, ds) = take_sign cs
            in if ds \<noteq> [] \<and> list_all is_digit ds
               then Some (if neg then - int (digits_value ds) else int (digits_value ds))
               else None)
      else None)"

definition scale10 :: "rat \<Rightarrow> int \<Rightarrow> rat" where
  "scale10 m e = (if e \<ge> 0 then m * 10 ^ nat e else m / 10 ^ nat (- e))"

definition py_float :: "string \<Rightarrow> rat option" where
  "py_float s =
     (let t = rev (dropWhile is_float_space (rev (dropWhile is_float_space s)));
          (neg, u) = take_sign t;
          ip = takeWhile is_digit u;
          r1 = dropWhile is_digit u;
          fp = (if take 1 r1 = ''.'' then takeWhile is_digit (drop 1 r1) else []);
          r2 = (if take 1 r1 = ''.'' then dropWhile is_digit (drop 1 r1) else r1)
      in if ip = [] \<and> fp = [] then None
         else (case exponent_of r2 of
                 None \<Rightarrow> None
               | Some e \<Rightarrow>
                   (let m = scale10 (of_nat (digits_value (ip @ fp))) (e - int (length fp))
                    in Some (if neg then - m else m))))"

text \<open>\<^verbatim>\<open>str.lower\<close> on the letters A to Z.\<close>

definition lower :: "char \<Rightarrow> char" where
  "lower c =
     (let n = (of_char c :: nat) in if 65 \<le> n \<and> n \<le> 90 then char_of (n + 32) else c)"

text \<open>
  \<^verbatim>\<open>float\<close> with the special values: after the whitespace and an optional sign,
  \<^verbatim>\<open>nan\<close>, \<^verbatim>\<open>inf\<close> and \<^verbatim>\<open>infinity\<close> in any letter case.
\<close>

definition py_float_ext :: "string \<Rightarrow> pyfloat option" where
  "py_float_ext s =
     (let t = rev (dropWhile is_float_space (rev (dropWhile is_float_space s)));
          (neg, u) = take_sign t;
          w = map lower u
      in if w = ''nan'' then Some NaN
         else if w = ''inf'' \<or> w = ''infinity'' then Some (if neg then MInf else PInf)
         else map_option Num (py_float s))"

subsection \<open>The line-by-line view of the parser\<close>

text \<open>
  The claims speak about the lines of the input one by one. These functions read the
  outcome of the loop body on each line: whether it raised, and the point it appended.
  Only the payload of the error depends on the line number.
\<close>

fun is_failed :: "'v line_result \<Rightarrow> bool" where
  "is_failed (Failed e) = True"
| "is_failed r = False"

fun point_of :: "'v line_result \<Rightarrow> ('v \<times> 'v) list" where
  "point_of (Point x y) = [(x, y)]"
| "point_of r = []"

definition line_points :: "(string \<Rightarrow> 'v option) \<Rightarrow> string list \<Rightarrow> ('v \<times> 'v) list" where
  "line_points float_of lines = concat (map (\<lambda>l. point_of (parse_line float_of 0 l)) lines)"

subsection \<open>The builtins \<^verbatim>\<open>min\<close> and \<^verbatim>\<open>max\<close>\<close>

text \<open>
  \<^verbatim>\<open>min\<close> and \<^verbatim>\<open>max\<close> keep the first item and replace it by a later one that
  is smaller (larger); on an empty sequence they raise \<^verbatim>\<open>ValueError\<close> (\<open>None\<close>).
\<close>

fun py_min :: "'a::ord list \<Rightarrow> 'a option" where
  "py_min [] = None"
| "py_min (x # xs) = Some (fold (\<lambda>v m. if v < m then v else m) xs x)"

fun py_max :: "'a::ord list \<Rightarrow> 'a option" where
  "py_max [] = None"
| "py_max (x # xs) = Some (fold (\<lambda>v m. if m < v then v else m) xs x)"

subsection \<open>The smoother\<close>

text \<open>
  Modelled from the spec: \<^verbatim>\<open>numpy.linspace\<close> is a library routine, not part of the
  module. The spec asks for \<open>num_points\<close> samples evenly spaced between \<open>min(x)\<close> and
  \<open>max(x)\<close>; the library raises \<^verbatim>\<open>ValueError\<close> on a negative number of samples and
  returns the start alone for one sample.
\<close>

definition linspace :: "rat \<Rightarrow> rat \<Rightarrow> int \<Rightarrow> lib_exn + rat list" where
  "linspace start stop num =
     (if num < 0 then Inl ''Number of samples must be non-negative''
      else if num = 1 then Inr [start]
      else Inr (map (\<lambda>i. start + of_nat i * ((stop - start) / of_int (num - 1))) [0..<nat num]))"

text \<open>
  The two classes of \<^verbatim>\<open>scipy.interpolate\<close> that the smoother instantiates:
  \<^verbatim>\<open>interp1d(x, y, kind=k)\<close> and \<^verbatim>\<open>Akima1DInterpolator(x, y)\<close>.
\<close>

datatype algorithm = Interp1d string | Akima1DInterpolator

text \<open>
  The interpolation library: building the interpolant for \<open>x\<close>, \<open>y\<close> and evaluating it
  at the sample points, \<open>Inl\<close> when either step raises. It is a parameter of the smoother.
\<close>

type_synonym library = "algorithm \<Rightarrow> rat list \<Rightarrow> rat list \<Rightarrow> rat list \<Rightarrow> lib_exn + rat list"

definition raised :: "lib_exn + 'a \<Rightarrow> error + 'a" where
  "raised r = (case r of Inl e \<Rightarrow> Inl (LibraryError e) | Inr v \<Rightarrow> Inr v)"

text \<open>
  The body of the \<^verbatim>\<open>try\<close> block: the dispatch on the method name, then
  \<^verbatim>\<open>smooth_y = interp_func(smooth_x)\<close>. The \<^verbatim>\<open>raise ValueError\<close> of the
  \<^verbatim>\<open>else\<close> branch is inside the block.
\<close>

definition try_body :: "library \<Rightarrow> rat list \<Rightarrow> rat list \<Rightarrow> string \<Rightarrow> rat list \<Rightarrow> error + rat list" where
  "try_body lib x_list y_list method smooth_x =
     (if method = ''linear'' then raised (lib (Interp1d ''linear'') x_list y_list smooth_x)
      else if method = ''quadratic'' then raised (lib (Interp1d ''quadratic'') x_list y_list smooth_x)
      else if method = ''cubic'' then raised (lib (Interp1d ''cubic'') x_list y_list smooth_x)
      else if method = ''akima'' then raised (lib Akima1DInterpolator x_list y_list smooth_x)
      else Inl (UnsupportedMethod method))"

text \<open>
  \<^verbatim>\<open>smooth_curve\<close>. The call of \<^verbatim>\<open>linspace\<close> is outside the \<^verbatim>\<open>try\<close> block;
  \<^verbatim>\<open>except Exception\<close> catches whatever the block raises and runs the linear
  interpolation, whose own exception is not caught. \<^verbatim>\<open>min\<close> and \<^verbatim>\<open>max\<close> cannot
  raise after the length test.
\<close>

definition smooth_curve ::
  "library \<Rightarrow> rat list \<Rightarrow> rat list \<Rightarrow> string \<Rightarrow> int \<Rightarrow> error + (rat list \<times> rat list)"
where
  "smooth_curve lib x_list y_list method num_points =
     (if length x_list < 2 then Inl InsufficientPoints
      else (case (py_min x_list, py_max x_list) of
              (Some lo, Some hi) \<Rightarrow>
                (case linspace lo hi num_points of
                   Inl e \<Rightarrow> Inl (LibraryError e)
                 | Inr smooth_x \<Rightarrow>
                     (case try_body lib x_list y_list method smooth_x of
                        Inr smooth_y \<Rightarrow> Inr (smooth_x, smooth_y)
                      | Inl e \<Rightarrow>
                          (case raised (lib (Interp1d ''linear'') x_list y_list smooth_x) of
                             Inl e' \<Rightarrow> Inl e'
                           | Inr smooth_y \<Rightarrow> Inr (smooth_x, smooth_y))))
            | _ \<Rightarrow> Inl EmptyInput))"

text \<open>
  Modelled from the spec: \<^verbatim>\<open>interp1d(kind='linear')\<close> is a library class, not part
  of the module. The spec gives it the standard piecewise-linear semantics: the value at
  \<open>v\<close> lies on the segment between the two neighbouring data points. A sample outside
  the data range raises. The model is for series with pairwise distinct \<open>x\<close>.
\<close>

fun linear_at :: "(rat \<times> rat) list \<Rightarrow> rat \<Rightarrow> rat option" where
  "linear_at ((x0, y0) # (x1, y1) # ps) v =
     (if x0 \<le> v \<and> v \<le> x1 \<and> x0 < x1 then Some (y0 + (v - x0) * ((y1 - y0) / (x1 - x0)))
      else linear_at ((x1, y1) # ps) v)"
| "linear_at ps v = None"

definition interp1d_linear :: "rat list \<Rightarrow> rat list \<Rightarrow> rat list \<Rightarrow> lib_exn + rat list" where
  "interp1d_linear x y x_new =
     (if length x \<noteq> length y then Inl ''x and y arrays must be equal in length''
      else (case those (map (linear_at (sort_key fst (zip x y))) x_new) of
              None \<Rightarrow> Inl ''A value in x_new is outside the interpolation range''
            | Some y_new \<Rightarrow> Inr y_new))"

text \<open>A library whose linear kind is the model above; the other algorithms stay open.\<close>

definition library_with :: "library \<Rightarrow> library" where
  "library_with splines alg =
     (if alg = Interp1d ''linear'' then interp1d_linear else splines alg)"

text \<open>
  A sample library for short series: the linear kind is the model above, and every other
  algorithm raises, as \<^verbatim>\<open>interp1d\<close> does for a spline kind when the series has
  fewer points than the order of the spline plus one.
\<close>

definition short_series_library :: library where
  "short_series_library = library_with (\<lambda>alg x y x_new. Inl ''too few points for this kind'')"

subsection \<open>The statistics\<close>

text \<open>
  The dictionary returned by \<^verbatim>\<open>calculate_statistics\<close>; its four keys are the
  minimum, the maximum, the mean and the number of data points.
\<close>

record statistics =
  minimum :: pyfloat
  maximum :: pyfloat
  mean :: pyfloat
  count :: nat

text \<open>
  \<^verbatim>\<open>calculate_statistics\<close>. The mean is \<^verbatim>\<open>sum(y_list) / len(y_list)\<close> in binary
  floating point: the sum and the quotient are rounded and can overflow to an infinity.
  The two operations are parameters: \<open>fsum\<close> is the builtin \<^verbatim>\<open>sum\<close> on a list of
  floats, \<open>fdiv\<close> the division of a float by a positive \<^verbatim>\<open>int\<close>. The entries are
  evaluated in order, so \<^verbatim>\<open>min\<close> raises on an empty list before the division by
  zero is reached.
\<close>

definition calculate_statistics ::
  "(pyfloat list \<Rightarrow> pyfloat) \<Rightarrow> (pyfloat \<Rightarrow> nat \<Rightarrow> pyfloat) \<Rightarrow> pyfloat list \<Rightarrow> error + statistics"
where
  "calculate_statistics fsum fdiv y_list =
     (case py_min y_list of
        None \<Rightarrow> Inl EmptyInput
      | Some lo \<Rightarrow>
          (case py_max y_list of
             None \<Rightarrow> Inl EmptyInput
           | Some hi \<Rightarrow>
               Inr \<lparr>minimum = lo, maximum = hi,
                    mean = fdiv (fsum y_list) (length y_list),
                    count = length y_list\<rparr>))"

text \<open>
  Exact arithmetic on the float values. Binary floating point agrees with it whenever
  the exact result is a float, as it is for the partial sums 1, 3, 6, 10 and the quotient
  10 / 4 of the example \<open>[1, 2, 3, 4]\<close>; it stands for \<open>fsum\<close> and \<open>fdiv\<close> in that
  example.
\<close>

fun exact_add :: "pyfloat \<Rightarrow> pyfloat \<Rightarrow> pyfloat" where
  "exact_add NaN b = NaN"
| "exact_add a NaN = NaN"
| "exact_add (Num x) (Num y) = Num (x + y)"
| "exact_add PInf MInf = NaN"
| "exact_add MInf PInf = NaN"
| "exact_add PInf b = PInf"
| "exact_add a PInf = PInf"
| "exact_add MInf b = MInf"
| "exact_add a MInf = MInf"

definition exact_sum :: "pyfloat list \<Rightarrow> pyfloat" where
  "exact_sum ys = foldl exact_add (Num 0) ys"

fun exact_quotient :: "pyfloat \<Rightarrow> nat \<Rightarrow> pyfloat" where
  "exact_quotient (Num x) n = Num (x / of_nat n)"
| "exact_quotient a n = a"

section \<open>Properties\<close>

subsection \<open>Splitting a line\<close>

lemma split_on_not_Nil: "split_on sep s \<noteq> []"
  by (induction s) (auto simp: Let_def)

lemma length_split_on: "length (split_on sep s) = Suc (length (filter (\<lambda>c. c = sep) s))"
proof (induction s)
  case Nil
  show ?case by simp
next
  case (Cons c cs)
  have "split_on sep cs \<noteq> []" by (rule split_on_not_Nil)
  then have "length (tl (split_on sep cs)) = length (split_on sep cs) - 1" by simp
  with Cons show ?case by (simp add: Let_def)
qed

lemma split_on_two_iff: "2 \<le> length (split_on sep s) \<longleftrightarrow> sep \<in> set s"
proof -
  have "0 < length (filter (\<lambda>c. c = sep) s) \<longleftrightarrow> sep \<in> set s"
    by (auto simp: filter_empty_conv)
  then show ?thesis by (simp add: length_split_on Suc_le_eq)
qed

lemma split_loop_first:
  assumes "i < length seps"
    and "2 \<le> length (split_on (seps ! i) line)"
    and "\<forall>j<i. length (split_on (seps ! j) line) < 2"
  shows "split_loop seps line parts = split_on (seps ! i) line"
  using assms
proof (induction seps arbitrary: i parts)
  case Nil
  then show ?case by simp
next
  case (Cons sep seps)
  show ?case
  proof (cases i)
    case 0
    with Cons.prems show ?thesis by simp
  next
    case (Suc k)
    from Cons.prems(3) Suc have first: "length (split_on sep line) < 2" by auto
    have "k < length seps" using Cons.prems(1) Suc by simp
    moreover have "2 \<le> length (split_on (seps ! k) line)" using Cons.prems(2) Suc by simp
    moreover have "\<forall>j<k. length (split_on (seps ! j) line) < 2"
    proof (intro allI impI)
      fix j assume "j < k"
      then have "Suc j < i" using Suc by simp
      with Cons.prems(3) have "length (split_on ((sep # seps) ! Suc j) line) < 2" by blast
      then show "length (split_on (seps ! j) line) < 2" by simp
    qed
    ultimately have "split_loop seps line (split_on sep line) = split_on (seps ! k) line"
      by (rule Cons.IH)
    with first Suc show ?thesis by (simp add: Let_def)
  qed
qed

lemma split_loop_none:
  assumes "\<forall>j<length seps. length (split_on (seps ! j) line) < 2" and "length parts < 2"
  shows "length (split_loop seps line parts) < 2"
  using assms
proof (induction seps arbitrary: parts)
  case Nil
  then show ?case by simp
next
  case (Cons sep seps)
  from Cons.prems(1) have first: "length (split_on sep line) < 2" by fastforce
  have "\<forall>j<length seps. length (split_on (seps ! j) line) < 2"
  proof (intro allI impI)
    fix j assume "j < length seps"
    then have "Suc j < length (sep # seps)" by simp
    with Cons.prems(1) have "length (split_on ((sep # seps) ! Suc j) line) < 2" by blast
    then show "length (split_on (seps ! j) line) < 2" by simp
  qed
  then have "length (split_loop seps line (split_on sep line)) < 2"
    using first by (rule Cons.IH)
  with first show ?case by (simp add: Let_def)
qed

subsection \<open>The loop over the lines\<close>

lemma is_failed_parse_line_num:
  "is_failed (parse_line float_of n l) = is_failed (parse_line float_of m l)"
  by (simp add: parse_line_def Let_def split: option.splits)

lemma point_of_parse_line_num:
  "point_of (parse_line float_of n l) = point_of (parse_line float_of m l)"
  by (simp add: parse_line_def Let_def split: option.splits)

lemma parse_lines_no_failure:
  assumes "\<forall>j<length ls. \<not> is_failed (parse_line float_of (n + j) (ls ! j))"
  shows "parse_lines float_of n ls xs ys =
           Inr (xs @ map fst (line_points float_of ls), ys @ map snd (line_points float_of ls))"
  using assms
proof (induction ls arbitrary: n xs ys)
  case Nil
  show ?case by (simp add: line_points_def)
next
  case (Cons l ls)
  from Cons.prems have head: "\<not> is_failed (parse_line float_of n l)" by fastforce
  have rest: "\<forall>j<length ls. \<not> is_failed (parse_line float_of (Suc n + j) (ls ! j))"
  proof (intro allI impI)
    fix j assume "j < length ls"
    then have "Suc j < length (l # ls)" by simp
    with Cons.prems have "\<not> is_failed (parse_line float_of (n + Suc j) ((l # ls) ! Suc j))"
      by blast
    then show "\<not> is_failed (parse_line float_of (Suc n + j) (ls ! j))" by simp
  qed
  have tail: "line_points float_of (l # ls) =
                point_of (parse_line float_of n l) @ line_points float_of ls"
    using point_of_parse_line_num [of float_of 0 l n] by (simp add: line_points_def)
  show ?case
  proof (cases "parse_line float_of n l")
    case Skipped
    then show ?thesis using Cons.IH [OF rest] tail by simp
  next
    case (Point x y)
    then show ?thesis using Cons.IH [OF rest] tail by simp
  next
    case (Failed e)
    with head show ?thesis by simp
  qed
qed

lemma parse_lines_first_failure:
  assumes "i < length ls"
    and "\<forall>j<i. \<not> is_failed (parse_line float_of (n + j) (ls ! j))"
    and "parse_line float_of (n + i) (ls ! i) = Failed e"
  shows "parse_lines float_of n ls xs ys = Inl e"
  using assms
proof (induction ls arbitrary: n i xs ys)
  case Nil
  then show ?case by simp
next
  case (Cons l ls)
  show ?case
  proof (cases i)
    case 0
    with Cons.prems(3) show ?thesis by simp
  next
    case (Suc k)
    from Cons.prems(2) Suc have head: "\<not> is_failed (parse_line float_of n l)" by fastforce
    have k: "k < length ls" using Cons.prems(1) Suc by simp
    have before: "\<forall>j<k. \<not> is_failed (parse_line float_of (Suc n + j) (ls ! j))"
    proof (intro allI impI)
      fix j assume "j < k"
      then have "Suc j < i" using Suc by simp
      with Cons.prems(2) have "\<not> is_failed (parse_line float_of (n + Suc j) ((l # ls) ! Suc j))"
        by blast
      then show "\<not> is_failed (parse_line float_of (Suc n + j) (ls ! j))" by simp
    qed
    have at: "parse_line float_of (Suc n + k) (ls ! k) = Failed e"
      using Cons.prems(3) Suc by simp
    have IH: "\<And>xs ys. parse_lines float_of (Suc n) ls xs ys = Inl e"
      using Cons.IH [OF k before at] .
    show ?thesis
    proof (cases "parse_line float_of n l")
      case Skipped
      then show ?thesis using IH by simp
    next
      case (Point x y)
      then show ?thesis using IH by simp
    next
      case (Failed e')
      with head show ?thesis by simp
    qed
  qed
qed

lemma parse_input_data_no_failure:
  assumes "\<forall>j<length (lines_of text). \<not> is_failed (parse_line float_of (Suc j) (lines_of text ! j))"
  shows "parse_lines float_of 1 (lines_of text) [] [] =
           Inr (map fst (line_points float_of (lines_of text)),
                map snd (line_points float_of (lines_of text)))"
  using parse_lines_no_failure [of "lines_of text" float_of 1 "[]" "[]"] assms by simp

subsection \<open>The comparison of floats and the sort\<close>

lemma pyfloat_less_irrefl: "\<not> (a::pyfloat) < a"
  by (cases a) simp_all

lemma pyfloat_less_imp_le: "(a::pyfloat) < b \<Longrightarrow> a \<le> b"
  by (simp add: less_eq_pyfloat_def)

lemma pyfloat_le_refl: "a \<noteq> NaN \<Longrightarrow> (a::pyfloat) \<le> a"
  by (simp add: less_eq_pyfloat_def)

lemma pyfloat_not_less_imp_le: "a \<noteq> NaN \<Longrightarrow> b \<noteq> NaN \<Longrightarrow> \<not> b < a \<Longrightarrow> (a::pyfloat) \<le> b"
  by (cases a; cases b) (auto simp: less_eq_pyfloat_def)

lemma pyfloat_less_trans: "(a::pyfloat) < b \<Longrightarrow> b < c \<Longrightarrow> a < c"
  by (cases a; cases b; cases c) auto

lemma pyfloat_le_trans: "(a::pyfloat) \<le> b \<Longrightarrow> b \<le> c \<Longrightarrow> a \<le> c"
  by (auto simp: less_eq_pyfloat_def dest: pyfloat_less_trans)

lemma pyfloat_le_not_NaN: "(a::pyfloat) \<le> b \<Longrightarrow> a \<noteq> NaN \<and> b \<noteq> NaN"
  by (cases a; cases b) (auto simp: less_eq_pyfloat_def)

lemma set_insert_by: "set (insert_by key x ys) = insert x (set ys)"
  by (induction ys) auto

lemma mset_insert_by: "mset (insert_by key x ys) = add_mset x (mset ys)"
  by (induction ys) auto

lemma mset_py_sorted: "mset (py_sorted key xs) = mset xs"
  by (induction xs) (simp_all add: py_sorted_def mset_insert_by)

lemma set_py_sorted: "set (py_sorted key xs) = set xs"
  by (induction xs) (simp_all add: py_sorted_def set_insert_by)

lemma filter_insert_by:
  fixes key :: "'a \<Rightarrow> pyfloat"
  shows "filter (\<lambda>p. key p = k) (insert_by key x ys)
           = (if key x = k then x # filter (\<lambda>p. key p = k) ys else filter (\<lambda>p. key p = k) ys)"
  by (induction ys) (auto simp: pyfloat_less_irrefl)

lemma py_sorted_stable:
  fixes key :: "'a \<Rightarrow> pyfloat"
  shows "filter (\<lambda>p. key p = k) (py_sorted key xs) = filter (\<lambda>p. key p = k) xs"
proof (induction xs)
  case Nil
  show ?case by (simp add: py_sorted_def)
next
  case (Cons x xs)
  have "py_sorted key (x # xs) = insert_by key x (py_sorted key xs)"
    by (simp add: py_sorted_def)
  with Cons show ?case by (simp add: filter_insert_by)
qed

lemma sorted_insert_by:
  fixes key :: "'a \<Rightarrow> pyfloat"
  assumes "sorted_wrt (\<le>) (map key ys)" and "key x \<noteq> NaN" and "\<forall>y\<in>set ys. key y \<noteq> NaN"
  shows "sorted_wrt (\<le>) (map key (insert_by key x ys))"
  using assms
proof (induction ys)
  case Nil
  show ?case by simp
next
  case (Cons y ys)
  show ?case
  proof (cases "key y < key x")
    case True
    have tail: "sorted_wrt (\<le>) (map key (insert_by key x ys))"
      using Cons by simp
    have "\<forall>z\<in>set (insert_by key x ys). key y \<le> key z"
      using Cons.prems(1) True by (auto simp: set_insert_by pyfloat_less_imp_le)
    with tail True show ?thesis by simp
  next
    case False
    have xy: "key x \<le> key y"
      using Cons.prems False by (intro pyfloat_not_less_imp_le) simp_all
    have "\<forall>z\<in>set ys. key x \<le> key z"
      using Cons.prems(1) xy by (auto intro: pyfloat_le_trans)
    with xy Cons.prems(1) False show ?thesis by simp
  qed
qed

lemma sorted_py_sorted:
  fixes key :: "'a \<Rightarrow> pyfloat"
  assumes "\<forall>x\<in>set xs. key x \<noteq> NaN"
  shows "sorted_wrt (\<le>) (map key (py_sorted key xs))"
  using assms
proof (induction xs)
  case Nil
  show ?case by (simp add: py_sorted_def)
next
  case (Cons x xs)
  have step: "py_sorted key (x # xs) = insert_by key x (py_sorted key xs)"
    by (simp add: py_sorted_def)
  have "sorted_wrt (\<le>) (map key (py_sorted key xs))" using Cons by simp
  moreover have "key x \<noteq> NaN" using Cons.prems by simp
  moreover have "\<forall>y\<in>set (py_sorted key xs). key y \<noteq> NaN"
    using Cons.prems by (simp add: set_py_sorted)
  ultimately show ?case unfolding step by (rule sorted_insert_by)
qed

subsection \<open>The parser's claims\<close>

text \<open>
  C7. When no line of the input fails and fewer than two lines give a point, the parser
  fails with the insufficient-data error; an input of one valid line does.
\<close>

theorem too_few_points_insufficient_data:
  "((\<forall>j<length (lines_of text). \<not> is_failed (parse_line float_of (Suc j) (lines_of text ! j)))
      \<and> length (line_points float_of (lines_of text)) < 2
     \<longrightarrow> parse_input_data float_of text = Inl InsufficientData)
   \<and> parse_input_data py_float ''1 2'' = Inl InsufficientData"
proof (intro conjI impI)
  assume a: "(\<forall>j<length (lines_of text). \<not> is_failed (parse_line float_of (Suc j) (lines_of text ! j)))
      \<and> length (line_points float_of (lines_of text)) < 2"
  then have "parse_lines float_of 1 (lines_of text) [] [] =
           Inr (map fst (line_points float_of (lines_of text)),
                map snd (line_points float_of (lines_of text)))"
    by (intro parse_input_data_no_failure) blast
  with a show "parse_input_data float_of text = Inl InsufficientData"
    by (simp add: parse_input_data_def)
next
  show "parse_input_data py_float ''1 2'' = Inl InsufficientData"
    by code_simp
qed

theorem too_few_points_insufficient_data_witness:
  "lines_of (''# data'' @ [newline] @ ''1 2'' @ [newline]) = [''# data'', ''1 2'']
   \<and> \<not> is_failed (parse_line py_float 1 ''# data'')
   \<and> \<not> is_failed (parse_line py_float 2 ''1 2'')
   \<and> length (line_points py_float (lines_of (''# data'' @ [newline] @ ''1 2'' @ [newline]))) < 2
   \<and> parse_input_data py_float (''# data'' @ [newline] @ ''1 2'' @ [newline]) = Inl InsufficientData"
proof -
  let ?T = "''# data'' @ [newline] @ ''1 2'' @ [newline]"
  have l: "lines_of ?T = [''# data'', ''1 2'']" by code_simp
  have c: "parse_line py_float n ''# data'' = Skipped" for n by code_simp
  have p: "parse_line py_float n ''1 2'' = Point 1 2" for n by code_simp
  have a: "\<forall>j<length (lines_of ?T). \<not> is_failed (parse_line py_float (Suc j) (lines_of ?T ! j))"
    unfolding l by (simp add: less_Suc_eq numeral_2_eq_2 c p)
  have b: "length (line_points py_float (lines_of ?T)) < 2"
    unfolding l by (simp add: line_points_def c p)
  from too_few_points_insufficient_data [of ?T py_float] a b
  have "parse_input_data py_float ?T = Inl InsufficientData" by blast
  with l b show ?thesis by (simp add: c p)
qed

text \<open>
  C4, as amended. When no line fails, at least two points were parsed, no \<open>x\<close> value is
  NaN and the \<open>x\<close> values are not strictly increasing, the parser returns all the
  points stably sorted by \<open>x\<close>: the \<open>x\<close> values are in ascending order, the points are
  the parsed ones with their multiplicities, and the points of each \<open>x\<close> value keep
  their original order. On \<^verbatim>\<open>3 9\<close>, \<^verbatim>\<open>1 1\<close>, \<^verbatim>\<open>2 4\<close> it returns
  \<open>x = [1, 2, 3]\<close>, \<open>y = [1, 4, 9]\<close>.
\<close>

theorem unsorted_points_stably_sorted:
  "((\<forall>j<length (lines_of text). \<not> is_failed (parse_line float_of (Suc j) (lines_of text ! j)))
      \<and> 2 \<le> length (line_points float_of (lines_of text))
      \<and> NaN \<notin> set (map fst (line_points float_of (lines_of text)))
      \<and> \<not> strictly_increasing (map fst (line_points float_of (lines_of text)))
     \<longrightarrow> (\<exists>ps. parse_input_data float_of text = Inr (map fst ps, map snd ps)
              \<and> sorted_wrt (\<le>) (map fst ps)
              \<and> mset ps = mset (line_points float_of (lines_of text))
              \<and> (\<forall>k. filter (\<lambda>p. fst p = k) ps
                      = filter (\<lambda>p. fst p = k) (line_points float_of (lines_of text)))))
   \<and> parse_input_data py_float (''3 9'' @ [newline] @ ''1 1'' @ [newline] @ ''2 4'')
       = Inr ([1, 2, 3], [1, 4, 9])"
proof (intro conjI impI)
  let ?pts = "line_points float_of (lines_of text)"
  assume a: "(\<forall>j<length (lines_of text). \<not> is_failed (parse_line float_of (Suc j) (lines_of text ! j)))
      \<and> 2 \<le> length ?pts \<and> NaN \<notin> set (map fst ?pts) \<and> \<not> strictly_increasing (map fst ?pts)"
  then have parsed: "parse_lines float_of 1 (lines_of text) [] [] = Inr (map fst ?pts, map snd ?pts)"
    by (intro parse_input_data_no_failure) blast
  have z: "zip (map fst ?pts) (map snd ?pts) = ?pts" by (simp add: zip_map_fst_snd)
  have res: "parse_input_data float_of text =
          Inr (map fst (py_sorted fst ?pts), map snd (py_sorted fst ?pts))"
    using a parsed by (simp add: parse_input_data_def z Let_def)
  have nonan: "\<forall>p\<in>set ?pts. fst p \<noteq> NaN"
  proof
    fix p assume "p \<in> set ?pts"
    then have "fst p \<in> set (map fst ?pts)" by simp
    with a show "fst p \<noteq> NaN" by metis
  qed
  show "\<exists>ps. parse_input_data float_of text = Inr (map fst ps, map snd ps)
              \<and> sorted_wrt (\<le>) (map fst ps) \<and> mset ps = mset ?pts
              \<and> (\<forall>k. filter (\<lambda>p. fst p = k) ps = filter (\<lambda>p. fst p = k) ?pts)"
  proof (intro exI conjI allI)
    show "parse_input_data float_of text =
          Inr (map fst (py_sorted fst ?pts), map snd (py_sorted fst ?pts))" by (rule res)
    show "sorted_wrt (\<le>) (map fst (py_sorted fst ?pts))" using nonan by (rule sorted_py_sorted)
    show "mset (py_sorted fst ?pts) = mset ?pts" by (rule mset_py_sorted)
    show "filter (\<lambda>p. fst p = k) (py_sorted fst ?pts) = filter (\<lambda>p. fst p = k) ?pts" for k
      by (rule py_sorted_stable)
  qed
next
  show "parse_input_data py_float (''3 9'' @ [newline] @ ''1 1'' @ [newline] @ ''2 4'')
       = Inr ([1, 2, 3], [1, 4, 9])"
    by code_simp
qed

theorem unsorted_points_stably_sorted_witness:
  "lines_of (''2 5'' @ [newline] @ ''1 7'' @ [newline] @ ''2 3'') = [''2 5'', ''1 7'', ''2 3'']
   \<and> \<not> is_failed (parse_line py_float_ext 1 ''2 5'')
   \<and> \<not> is_failed (parse_line py_float_ext 2 ''1 7'')
   \<and> \<not> is_failed (parse_line py_float_ext 3 ''2 3'')
   \<and> line_points py_float_ext (lines_of (''2 5'' @ [newline] @ ''1 7'' @ [newline] @ ''2 3''))
       = [(Num 2, Num 5), (Num 1, Num 7), (Num 2, Num 3)]
   \<and> NaN \<notin> set (map fst [(Num 2, Num 5), (Num 1, Num 7), (Num 2, Num 3)])
   \<and> \<not> strictly_increasing (map fst [(Num 2, Num 5), (Num 1, Num 7), (Num 2, Num 3)])
   \<and> (\<exists>ps. parse_input_data py_float_ext (''2 5'' @ [newline] @ ''1 7'' @ [newline] @ ''2 3'')
              = Inr (map fst ps, map snd ps)
          \<and> sorted_wrt (\<le>) (map fst ps)
          \<and> mset ps = mset [(Num 2, Num 5), (Num 1, Num 7), (Num 2, Num 3)]
          \<and> (\<forall>k. filter (\<lambda>p. fst p = k) ps
                  = filter (\<lambda>p. fst p = k) [(Num 2, Num 5), (Num 1, Num 7), (Num 2, Num 3)]))
   \<and> parse_input_data py_float_ext (''2 5'' @ [newline] @ ''1 7'' @ [newline] @ ''2 3'')
       = Inr ([Num 1, Num 2, Num 2], [Num 7, Num 5, Num 3])"
proof -
  let ?T = "''2 5'' @ [newline] @ ''1 7'' @ [newline] @ ''2 3''"
  let ?P = "[(Num 2, Num 5), (Num 1, Num 7), (Num 2, Num 3)]"
  have l: "lines_of ?T = [''2 5'', ''1 7'', ''2 3'']" by code_simp
  have p1: "parse_line py_float_ext n ''2 5'' = Point (Num 2) (Num 5)" for n by code_simp
  have p2: "parse_line py_float_ext n ''1 7'' = Point (Num 1) (Num 7)" for n by code_simp
  have p3: "parse_line py_float_ext n ''2 3'' = Point (Num 2) (Num 3)" for n by code_simp
  have a: "\<forall>j<length (lines_of ?T). \<not> is_failed (parse_line py_float_ext (Suc j) (lines_of ?T ! j))"
    unfolding l by (simp add: less_Suc_eq numeral_3_eq_3 p1 p2 p3)
  have b: "line_points py_float_ext (lines_of ?T) = ?P"
    unfolding l by (simp add: line_points_def p1 p2 p3)
  have c: "NaN \<notin> set (map fst ?P)" by simp
  have d: "\<not> strictly_increasing (map fst ?P)" by simp
  have pre: "(\<forall>j<length (lines_of ?T). \<not> is_failed (parse_line py_float_ext (Suc j) (lines_of ?T ! j)))
      \<and> 2 \<le> length (line_points py_float_ext (lines_of ?T))
      \<and> NaN \<notin> set (map fst (line_points py_float_ext (lines_of ?T)))
      \<and> \<not> strictly_increasing (map fst (line_points py_float_ext (lines_of ?T)))"
    using a c d unfolding b by simp
  note main = mp [OF unsorted_points_stably_sorted [of ?T py_float_ext, THEN conjunct1] pre]
  have val: "parse_input_data py_float_ext ?T = Inr ([Num 1, Num 2, Num 2], [Num 7, Num 5, Num 3])"
    by code_simp
  have np: "\<not> is_failed (parse_line py_float_ext 1 ''2 5'')"
    "\<not> is_failed (parse_line py_float_ext 2 ''1 7'')"
    "\<not> is_failed (parse_line py_float_ext 3 ''2 3'')"
    by (simp_all add: p1 p2 p3)
  from l np b c d main [unfolded b] val show ?thesis by (intro conjI)
qed

text \<open>
  C4, as stated, fails when an \<open>x\<close> value is NaN. On \<^verbatim>\<open>3 9\<close>, \<^verbatim>\<open>nan 0\<close>,
  \<^verbatim>\<open>1 1\<close>, \<^verbatim>\<open>2 4\<close> the \<open>x\<close> values are not strictly increasing, no item is smaller
  than the one before it, and the points come back in their input order, which is not
  sorted by \<open>x\<close>.
\<close>

theorem nan_points_not_sorted_counterexample:
  "parse_input_data py_float_ext
       (''3 9'' @ [newline] @ ''nan 0'' @ [newline] @ ''1 1'' @ [newline] @ ''2 4'')
     = Inr ([Num 3, NaN, Num 1, Num 2], [Num 9, Num 0, Num 1, Num 4])
   \<and> \<not> strictly_increasing [Num 3, NaN, Num 1, Num 2]
   \<and> \<not> sorted_wrt (\<le>) [Num 3, NaN, Num 1, Num 2]"
proof (intro conjI)
  show "parse_input_data py_float_ext
       (''3 9'' @ [newline] @ ''nan 0'' @ [newline] @ ''1 1'' @ [newline] @ ''2 4'')
     = Inr ([Num 3, NaN, Num 1, Num 2], [Num 9, Num 0, Num 1, Num 4])"
    by code_simp
  show "\<not> strictly_increasing [Num 3, NaN, Num 1, Num 2]" by simp
  show "\<not> sorted_wrt (\<le>) [Num 3, NaN, Num 1, Num 2]" by (simp add: less_eq_pyfloat_def)
qed

text \<open>
  C5, as amended. Let line \<open>i + 1\<close> of the stripped input be the first line that fails,
  a line that is neither blank nor a comment. The parser fails with the parse error of
  line number \<open>i + 1\<close>. The error quotes the stripped line text when the line has fewer
  than two parts; when a part is not a float it quotes that part (the first part if it
  fails, else the second), not the line. On \<^verbatim>\<open>abc 1\<close> the error is that of line 1
  and quotes \<^verbatim>\<open>abc\<close>.
\<close>

theorem parse_error_names_line_and_token:
  "(i < length (lines_of text)
      \<and> (\<forall>j<i. \<not> is_failed (parse_line float_of (Suc j) (lines_of text ! j)))
      \<and> strip (lines_of text ! i) \<noteq> [] \<and> take 1 (strip (lines_of text ! i)) \<noteq> ''#''
      \<and> (length (split_line (strip (lines_of text ! i))) < 2
           \<or> float_of (split_line (strip (lines_of text ! i)) ! 0) = None
           \<or> float_of (split_line (strip (lines_of text ! i)) ! 1) = None)
     \<longrightarrow> parse_input_data float_of text =
           Inl (ParseError (Suc i)
                 (if length (split_line (strip (lines_of text ! i))) < 2
                  then LineFormat (Suc i) (strip (lines_of text ! i))
                  else if float_of (split_line (strip (lines_of text ! i)) ! 0) = None
                  then FloatConversion (split_line (strip (lines_of text ! i)) ! 0)
                  else FloatConversion (split_line (strip (lines_of text ! i)) ! 1))))
   \<and> parse_input_data py_float ''abc 1'' = Inl (ParseError 1 (FloatConversion ''abc''))"
proof (intro conjI impI)
  let ?line = "strip (lines_of text ! i)"
  let ?parts = "split_line ?line"
  let ?c = "if length ?parts < 2 then LineFormat (Suc i) ?line
            else if float_of (?parts ! 0) = None then FloatConversion (?parts ! 0)
            else FloatConversion (?parts ! 1)"
  assume a: "i < length (lines_of text)
      \<and> (\<forall>j<i. \<not> is_failed (parse_line float_of (Suc j) (lines_of text ! j)))
      \<and> ?line \<noteq> [] \<and> take 1 ?line \<noteq> ''#''
      \<and> (length ?parts < 2 \<or> float_of (?parts ! 0) = None \<or> float_of (?parts ! 1) = None)"
  have at: "parse_line float_of (1 + i) (lines_of text ! i) = Failed (ParseError (Suc i) ?c)"
    using a by (auto simp: parse_line_def Let_def split: option.splits)
  have before: "\<forall>j<i. \<not> is_failed (parse_line float_of (1 + j) (lines_of text ! j))"
    using a by simp
  have "parse_lines float_of 1 (lines_of text) [] [] = Inl (ParseError (Suc i) ?c)"
    using a before at by (intro parse_lines_first_failure [where i = i]) blast+
  then show "parse_input_data float_of text = Inl (ParseError (Suc i) ?c)"
    by (simp add: parse_input_data_def)
next
  show "parse_input_data py_float ''abc 1'' = Inl (ParseError 1 (FloatConversion ''abc''))"
    by code_simp
qed

theorem parse_error_names_line_and_token_witness:
  "(1::nat) < length (lines_of (''1 2'' @ [newline] @ ''3;x''))
   \<and> lines_of (''1 2'' @ [newline] @ ''3;x'') = [''1 2'', ''3;x'']
   \<and> \<not> is_failed (parse_line py_float 1 ''1 2'')
   \<and> strip ''3;x'' = ''3;x''
   \<and> split_line ''3;x'' = [''3'', ''x'']
   \<and> py_float ''3'' = Some 3 \<and> py_float ''x'' = None
   \<and> parse_input_data py_float (''1 2'' @ [newline] @ ''3;x'')
       = Inl (ParseError 2 (FloatConversion ''x''))"
proof -
  let ?T = "''1 2'' @ [newline] @ ''3;x''"
  have l: "lines_of ?T = [''1 2'', ''3;x'']" by code_simp
  have p: "parse_line py_float n ''1 2'' = Point 1 2" for n by code_simp
  have s: "strip ''3;x'' = ''3;x''" by code_simp
  have t: "split_line ''3;x'' = [''3'', ''x'']" by code_simp
  have f3: "py_float ''3'' = Some 3" by code_simp
  have fx: "py_float ''x'' = None" by code_simp
  have a: "\<forall>j<1. \<not> is_failed (parse_line py_float (Suc j) (lines_of ?T ! j))"
    unfolding l by (simp add: p)
  from parse_error_names_line_and_token [of 1 ?T py_float] a
  have "parse_input_data py_float ?T = Inl (ParseError 2 (FloatConversion ''x''))"
    unfolding l by (simp add: s t f3 fx)
  with l show ?thesis by (simp add: p s t f3 fx)
qed

text \<open>
  C5, as stated, fails on \<^verbatim>\<open>abc 1\<close>: the parse error of line 1 does not quote the
  line text \<^verbatim>\<open>abc 1\<close>.
\<close>

theorem parse_error_line_text_counterexample:
  "\<not> (\<exists>c. parse_input_data py_float ''abc 1'' = Inl (ParseError 1 c) \<and> quoted_text c = ''abc 1'')"
proof -
  have "parse_input_data py_float ''abc 1'' = Inl (ParseError 1 (FloatConversion ''abc''))"
    by code_simp
  then show ?thesis by auto
qed

text \<open>
  C6. The separators are tried in the order space, comma, tab, semicolon. The line is
  split at the first of them that gives at least two parts; when none does, fewer than
  two parts remain. A data line whose first two parts, so split, are floats gives the
  point made of them. On \<^verbatim>\<open>1,2\<close>, \<^verbatim>\<open>3 4\<close>, \<^verbatim>\<open>5<tab>6\<close> the parser returns
  \<open>x = [1, 3, 5]\<close>, \<open>y = [2, 4, 6]\<close>.
\<close>

theorem split_line_first_separator:
  "separators = [CHR '' '', CHR '','', tab, CHR '';'']
   \<and> (i < length separators
        \<and> 2 \<le> length (split_on (separators ! i) line)
        \<and> (\<forall>j<i. length (split_on (separators ! j) line) < 2)
       \<longrightarrow> split_line line = split_on (separators ! i) line)
   \<and> ((\<forall>j<length separators. length (split_on (separators ! j) line) < 2)
       \<longrightarrow> length (split_line line) < 2)
   \<and> (strip raw = line \<and> line \<noteq> [] \<and> take 1 line \<noteq> ''#''
        \<and> i < length separators
        \<and> 2 \<le> length (split_on (separators ! i) line)
        \<and> (\<forall>j<i. length (split_on (separators ! j) line) < 2)
        \<and> float_of (split_on (separators ! i) line ! 0) = Some x
        \<and> float_of (split_on (separators ! i) line ! 1) = Some y
       \<longrightarrow> parse_line float_of n raw = Point x y)
   \<and> parse_input_data py_float (''1,2'' @ [newline] @ ''3 4'' @ [newline] @ ''5'' @ [tab] @ ''6'')
       = Inr ([1, 3, 5], [2, 4, 6])"
proof (intro conjI impI)
  show "separators = [CHR '' '', CHR '','', tab, CHR '';'']" by (simp add: separators_def)
next
  assume "i < length separators \<and> 2 \<le> length (split_on (separators ! i) line)
        \<and> (\<forall>j<i. length (split_on (separators ! j) line) < 2)"
  then show "split_line line = split_on (separators ! i) line"
    unfolding split_line_def by (intro split_loop_first) blast+
next
  assume "\<forall>j<length separators. length (split_on (separators ! j) line) < 2"
  then show "length (split_line line) < 2"
    unfolding split_line_def by (intro split_loop_none) simp_all
next
  assume a: "strip raw = line \<and> line \<noteq> [] \<and> take 1 line \<noteq> ''#''
        \<and> i < length separators
        \<and> 2 \<le> length (split_on (separators ! i) line)
        \<and> (\<forall>j<i. length (split_on (separators ! j) line) < 2)
        \<and> float_of (split_on (separators ! i) line ! 0) = Some x
        \<and> float_of (split_on (separators ! i) line ! 1) = Some y"
  then have "split_line line = split_on (separators ! i) line"
    unfolding split_line_def by (intro split_loop_first) blast+
  with a show "parse_line float_of n raw = Point x y"
    by (simp add: parse_line_def Let_def)
next
  show "parse_input_data py_float (''1,2'' @ [newline] @ ''3 4'' @ [newline] @ ''5'' @ [tab] @ ''6'')
       = Inr ([1, 3, 5], [2, 4, 6])"
    by code_simp
qed

theorem split_line_first_separator_witness:
  "(3::nat) < length separators
   \<and> separators ! 3 = CHR '';''
   \<and> 2 \<le> length (split_on (separators ! 3) ''5;6'')
   \<and> length (split_on (separators ! 0) ''5;6'') < 2
   \<and> length (split_on (separators ! 1) ''5;6'') < 2
   \<and> length (split_on (separators ! 2) ''5;6'') < 2
   \<and> split_line ''5;6'' = [''5'', ''6'']
   \<and> parse_line py_float 1 '' 5;6 '' = Point 5 6"
proof -
  note T = split_line_first_separator [of 3 "''5;6''" "'' 5;6 ''" py_float 5 6 1]
  have s: "separators = [CHR '' '', CHR '','', tab, CHR '';'']" by (simp add: separators_def)
  have a: "(3::nat) < length separators" by (simp add: s)
  have b: "2 \<le> length (split_on (separators ! 3) ''5;6'')" by (simp add: s)
  have c: "\<forall>j<3. length (split_on (separators ! j) ''5;6'') < 2"
    by (simp add: s less_Suc_eq numeral_3_eq_3)
  have d: "split_on (separators ! 3) ''5;6'' = [''5'', ''6'']" by (simp add: s)
  have st: "strip '' 5;6 '' = ''5;6''" by code_simp
  have ne: "''5;6'' \<noteq> []" by simp
  have nc: "take 1 ''5;6'' \<noteq> ''#''" by simp
  have f5: "py_float (split_on (separators ! 3) ''5;6'' ! 0) = Some 5"
    unfolding d by code_simp
  have f6: "py_float (split_on (separators ! 3) ''5;6'' ! 1) = Some 6"
    unfolding d by code_simp
  have r1: "split_line ''5;6'' = split_on (separators ! 3) ''5;6''"
    by (rule mp [OF T [THEN conjunct2, THEN conjunct1]]) (intro conjI a b c)
  have r2: "parse_line py_float 1 '' 5;6 '' = Point 5 6"
    by (rule mp [OF T [THEN conjunct2, THEN conjunct2, THEN conjunct2, THEN conjunct1]])
       (intro conjI st ne nc a b c f5 f6)
  have e: "separators ! 3 = CHR '';''" by (simp add: s)
  have c0: "length (split_on (separators ! 0) ''5;6'') < 2" by (simp add: s)
  have c1: "length (split_on (separators ! 1) ''5;6'') < 2" by (simp add: s)
  have c2: "length (split_on (separators ! 2) ''5;6'') < 2" by (simp add: s)
  from a e b c0 c1 c2 r1 [unfolded d] r2 show ?thesis by (intro conjI)
qed

text \<open>
  C2. On the two lines \<^verbatim>\<open>1 2\<close> and \<^verbatim>\<open>1 3\<close>, with equal \<open>x\<close> values, the parser
  accepts the input and returns \<open>x = [1, 1]\<close>, which is not strictly increasing: the
  sort that follows the failed test does not remove or reject the repeated value.
\<close>

theorem duplicate_x_not_strictly_increasing:
  "parse_input_data py_float (''1 2'' @ [newline] @ ''1 3'') = Inr ([1, 1], [2, 3])
   \<and> \<not> strictly_increasing [1, 1 :: rat]"
  by code_simp

subsection \<open>\<^verbatim>\<open>min\<close> and \<^verbatim>\<open>max\<close> on a linear order\<close>

lemma fold_keep_smaller:
  "fold (\<lambda>v m. if v < m then v else m) xs (x::'a::linorder) = Min (set (x # xs))"
proof -
  have "(\<lambda>v m. if v < m then v else m) = (min :: 'a \<Rightarrow> 'a \<Rightarrow> 'a)"
    by (intro ext) (auto simp add: min_def)
  then show ?thesis by (simp only: Min.set_eq_fold)
qed

lemma fold_keep_larger:
  "fold (\<lambda>v m. if m < v then v else m) xs (x::'a::linorder) = Max (set (x # xs))"
proof -
  have "(\<lambda>v m. if m < v then v else m) = (max :: 'a \<Rightarrow> 'a \<Rightarrow> 'a)"
    by (intro ext) (auto simp add: max_def)
  then show ?thesis by (simp only: Max.set_eq_fold)
qed

lemma py_min_Min: "xs \<noteq> [] \<Longrightarrow> py_min xs = Some (Min (set xs))"
  by (cases xs) (simp_all add: fold_keep_smaller)

lemma py_max_Max: "xs \<noteq> [] \<Longrightarrow> py_max xs = Some (Max (set xs))"
  by (cases xs) (simp_all add: fold_keep_larger)

subsection \<open>Statistics\<close>

lemma fold_keep_smaller_least:
  assumes "x \<noteq> NaN" and "NaN \<notin> set xs"
  shows "fold (\<lambda>v m. if v < m then v else m) xs x \<in> set (x # xs)
         \<and> (\<forall>v\<in>set (x # xs). fold (\<lambda>v m. if v < m then v else m) xs x \<le> v)"
  using assms
proof (induction xs arbitrary: x)
  case Nil
  then show ?case by (simp add: pyfloat_le_refl)
next
  case (Cons a xs)
  let ?x' = "if a < x then a else x"
  let ?m = "fold (\<lambda>v m. if v < m then v else m) xs ?x'"
  have a: "a \<noteq> NaN" and xs: "NaN \<notin> set xs" using Cons.prems(2) by auto
  have x': "?x' \<noteq> NaN" using Cons.prems(1) a by simp
  from Cons.IH [OF x' xs] have mem: "?m \<in> set (?x' # xs)"
    and least: "\<forall>v\<in>set (?x' # xs). ?m \<le> v" by blast+
  have x'x: "?x' \<le> x" using Cons.prems(1) by (simp add: pyfloat_less_imp_le pyfloat_le_refl)
  have x'a: "?x' \<le> a"
    using Cons.prems(1) a by (simp add: pyfloat_le_refl pyfloat_not_less_imp_le)
  have mx': "?m \<le> ?x'" using least by simp
  have "?m \<le> x" using mx' x'x by (rule pyfloat_le_trans)
  moreover have "?m \<le> a" using mx' x'a by (rule pyfloat_le_trans)
  moreover have "\<forall>v\<in>set xs. ?m \<le> v" using least by simp
  moreover have "?m \<in> set (x # a # xs)" using mem by auto
  ultimately show ?case by simp
qed

lemma fold_keep_larger_greatest:
  assumes "x \<noteq> NaN" and "NaN \<notin> set xs"
  shows "fold (\<lambda>v m. if m < v then v else m) xs x \<in> set (x # xs)
         \<and> (\<forall>v\<in>set (x # xs). v \<le> fold (\<lambda>v m. if m < v then v else m) xs x)"
  using assms
proof (induction xs arbitrary: x)
  case Nil
  then show ?case by (simp add: pyfloat_le_refl)
next
  case (Cons a xs)
  let ?x' = "if x < a then a else x"
  let ?m = "fold (\<lambda>v m. if m < v then v else m) xs ?x'"
  have a: "a \<noteq> NaN" and xs: "NaN \<notin> set xs" using Cons.prems(2) by auto
  have x': "?x' \<noteq> NaN" using Cons.prems(1) a by simp
  from Cons.IH [OF x' xs] have mem: "?m \<in> set (?x' # xs)"
    and greatest: "\<forall>v\<in>set (?x' # xs). v \<le> ?m" by blast+
  have xx': "x \<le> ?x'" using Cons.prems(1) by (simp add: pyfloat_less_imp_le pyfloat_le_refl)
  have ax': "a \<le> ?x'"
    using Cons.prems(1) a by (simp add: pyfloat_le_refl pyfloat_not_less_imp_le)
  have x'm: "?x' \<le> ?m" using greatest by simp
  have "x \<le> ?m" using xx' x'm by (rule pyfloat_le_trans)
  moreover have "a \<le> ?m" using ax' x'm by (rule pyfloat_le_trans)
  moreover have "\<forall>v\<in>set xs. v \<le> ?m" using greatest by simp
  moreover have "?m \<in> set (x # a # xs)" using mem by auto
  ultimately show ?case by simp
qed

lemma py_min_least:
  assumes "ys \<noteq> []" and "NaN \<notin> set ys"
  shows "\<exists>m. py_min ys = Some m \<and> m \<in> set ys \<and> (\<forall>v\<in>set ys. m \<le> v)"
proof (cases ys)
  case Nil
  with assms(1) show ?thesis by simp
next
  case (Cons x xs)
  with assms(2) have "x \<noteq> NaN" and "NaN \<notin> set xs" by auto
  from fold_keep_smaller_least [OF this] show ?thesis unfolding Cons by simp
qed

lemma py_max_greatest:
  assumes "ys \<noteq> []" and "NaN \<notin> set ys"
  shows "\<exists>m. py_max ys = Some m \<and> m \<in> set ys \<and> (\<forall>v\<in>set ys. v \<le> m)"
proof (cases ys)
  case Nil
  with assms(1) show ?thesis by simp
next
  case (Cons x xs)
  with assms(2) have "x \<noteq> NaN" and "NaN \<notin> set xs" by auto
  from fold_keep_larger_greatest [OF this] show ?thesis unfolding Cons by simp
qed

text \<open>
  C9, as amended. On a non-empty sequence \<open>y\<close> of floats without NaN, the minimum of the
  statistics is the least element of \<open>y\<close> and the maximum the greatest, the count is the
  length, and the mean is the floating-point quotient of the floating-point sum by the
  length, which need not be the exact mean. On \<open>[1, 2, 3, 4]\<close>, where that arithmetic is
  exact, they are 1, 4, 5/2 and 4.
\<close>

theorem calculate_statistics_on_floats:
  "(y \<noteq> [] \<and> NaN \<notin> set y
     \<longrightarrow> (\<exists>s. calculate_statistics fsum fdiv y = Inr s
            \<and> minimum s \<in> set y \<and> (\<forall>v\<in>set y. minimum s \<le> v)
            \<and> maximum s \<in> set y \<and> (\<forall>v\<in>set y. v \<le> maximum s)
            \<and> mean s = fdiv (fsum y) (length y)
            \<and> count s = length y))
   \<and> calculate_statistics exact_sum exact_quotient [Num 1, Num 2, Num 3, Num 4] =
        Inr \<lparr>minimum = Num 1, maximum = Num 4, mean = Num (5 / 2), count = 4\<rparr>"
proof (intro conjI impI)
  assume a: "y \<noteq> [] \<and> NaN \<notin> set y"
  from a obtain lo where lo: "py_min y = Some lo" "lo \<in> set y" "\<forall>v\<in>set y. lo \<le> v"
    using py_min_least [of y] by blast
  from a obtain hi where hi: "py_max y = Some hi" "hi \<in> set y" "\<forall>v\<in>set y. v \<le> hi"
    using py_max_greatest [of y] by blast
  let ?s = "\<lparr>minimum = lo, maximum = hi, mean = fdiv (fsum y) (length y), count = length y\<rparr>"
  have "calculate_statistics fsum fdiv y = Inr ?s"
    by (simp add: calculate_statistics_def lo(1) hi(1))
  with lo hi show "\<exists>s. calculate_statistics fsum fdiv y = Inr s
            \<and> minimum s \<in> set y \<and> (\<forall>v\<in>set y. minimum s \<le> v)
            \<and> maximum s \<in> set y \<and> (\<forall>v\<in>set y. v \<le> maximum s)
            \<and> mean s = fdiv (fsum y) (length y)
            \<and> count s = length y"
    by (intro exI [of _ ?s]) simp
next
  show "calculate_statistics exact_sum exact_quotient [Num 1, Num 2, Num 3, Num 4] =
        Inr \<lparr>minimum = Num 1, maximum = Num 4, mean = Num (5 / 2), count = 4\<rparr>"
    by (simp add: calculate_statistics_def exact_sum_def)
qed

theorem calculate_statistics_on_floats_witness:
  "[Num 3, Num 1, Num 2] \<noteq> [] \<and> NaN \<notin> set [Num 3, Num 1, Num 2]
   \<and> (\<exists>s. calculate_statistics exact_sum exact_quotient [Num 3, Num 1, Num 2] = Inr s
         \<and> minimum s \<in> set [Num 3, Num 1, Num 2]
         \<and> (\<forall>v\<in>set [Num 3, Num 1, Num 2]. minimum s \<le> v)
         \<and> maximum s \<in> set [Num 3, Num 1, Num 2]
         \<and> (\<forall>v\<in>set [Num 3, Num 1, Num 2]. v \<le> maximum s)
         \<and> mean s = exact_quotient (exact_sum [Num 3, Num 1, Num 2]) (length [Num 3, Num 1, Num 2])
         \<and> count s = length [Num 3, Num 1, Num 2])
   \<and> calculate_statistics exact_sum exact_quotient [Num 3, Num 1, Num 2] =
        Inr \<lparr>minimum = Num 1, maximum = Num 3, mean = Num 2, count = 3\<rparr>"
proof -
  have pre: "[Num 3, Num 1, Num 2] \<noteq> [] \<and> NaN \<notin> set [Num 3, Num 1, Num 2]" by simp
  note main = mp [OF calculate_statistics_on_floats
      [of "[Num 3, Num 1, Num 2]" exact_sum exact_quotient, THEN conjunct1] pre]
  have val: "calculate_statistics exact_sum exact_quotient [Num 3, Num 1, Num 2] =
        Inr \<lparr>minimum = Num 1, maximum = Num 3, mean = Num 2, count = 3\<rparr>"
    by (simp add: calculate_statistics_def exact_sum_def)
  from pre main val show ?thesis by (intro conjI) simp_all
qed

text \<open>
  C9, as stated, fails when \<open>y\<close> holds NaN. On \<open>[NaN, 1]\<close> the minimum returned is NaN,
  which is not below the element 1, and the maximum is NaN, which is not above it; on
  \<open>[1, NaN]\<close>, the same values in another order, the minimum is 1.
\<close>

theorem calculate_statistics_nan_counterexample:
  "map_sum id minimum (calculate_statistics exact_sum exact_quotient [NaN, Num 1]) = Inr NaN
   \<and> Num 1 \<in> set [NaN, Num 1] \<and> \<not> NaN \<le> Num 1
   \<and> map_sum id minimum (calculate_statistics exact_sum exact_quotient [Num 1, NaN]) = Inr (Num 1)
   \<and> map_sum id maximum (calculate_statistics exact_sum exact_quotient [NaN, Num 1]) = Inr NaN
   \<and> \<not> Num 1 \<le> NaN"
  by (simp add: calculate_statistics_def less_eq_pyfloat_def)

subsection \<open>The smoother and the method name\<close>

text \<open>
  C1. The smoother never fails with the unsupported-method error: the
  \<^verbatim>\<open>raise\<close> of the \<^verbatim>\<open>else\<close> branch is caught by the \<^verbatim>\<open>except\<close> clause
  of the same \<^verbatim>\<open>try\<close> block. With the method name \<^verbatim>\<open>nearest\<close>, the points
  (0,0), (1,1) and three samples it returns the linear interpolation.
\<close>

theorem smooth_curve_unsupported_method_swallowed:
  "smooth_curve lib x_list y_list method num_points \<noteq> Inl (UnsupportedMethod m)
   \<and> smooth_curve (library_with splines) [0, 1] [0, 1] ''nearest'' 3
       = Inr ([0, 1 / 2, 1], [0, 1 / 2, 1])"
proof
  show "smooth_curve lib x_list y_list method num_points \<noteq> Inl (UnsupportedMethod m)"
    by (auto simp: smooth_curve_def raised_def split: option.splits sum.splits prod.splits)
next
  show "smooth_curve (library_with splines) [0, 1] [0, 1] ''nearest'' 3
       = Inr ([0, 1 / 2, 1], [0, 1 / 2, 1])"
    by code_simp
qed

subsection \<open>The sample points\<close>


lemma those_map_Some: "(\<And>x. x \<in> set xs \<Longrightarrow> f x = Some (g x)) \<Longrightarrow> those (map f xs) = Some (map g xs)"
  by (induction xs) auto






lemma smooth_curve_unfold:
  assumes "2 \<le> length x_list"
    and "linspace (Min (set x_list)) (Max (set x_list)) num_points = Inr smooth_x"
  shows "smooth_curve lib x_list y_list method num_points =
           (case try_body lib x_list y_list method smooth_x of
              Inr smooth_y \<Rightarrow> Inr (smooth_x, smooth_y)
            | Inl e \<Rightarrow>
                (case lib (Interp1d ''linear'') x_list y_list smooth_x of
                   Inl e' \<Rightarrow> Inl (LibraryError e')
                 | Inr smooth_y \<Rightarrow> Inr (smooth_x, smooth_y)))"
proof -
  from assms(1) have ne: "x_list \<noteq> []" by auto
  from assms(1) have "\<not> length x_list < 2" by simp
  then show ?thesis
    using assms(2)
    by (simp add: smooth_curve_def py_min_Min [OF ne] py_max_Max [OF ne] raised_def
             split: sum.splits)
qed

lemma linear_at_unit: "0 \<le> v \<Longrightarrow> v \<le> 1 \<Longrightarrow> linear_at [(0, 0), (1, 1)] v = Some v"
  by simp

lemma interp1d_linear_unit:
  assumes "set x_new \<subseteq> {0..1}"
  shows "interp1d_linear [0, 1] [0, 1] x_new = Inr x_new"
proof -
  have "those (map (linear_at [(0, 0), (1, 1)]) x_new) = Some (map (\<lambda>v. v) x_new)"
    using assms by (intro those_map_Some linear_at_unit) auto
  then show ?thesis by (simp add: interp1d_linear_def)
qed

subsection \<open>The fallback to linear interpolation\<close>

text \<open>
  C3. Let the series have at least two points, let \<open>smooth_x\<close> be the sample points, and
  let the algorithm chosen by a supported method name raise, whatever the name and the
  exception. Then the smoother gives the outcome of the linear interpolation on the same
  series and sample points: its values, paired with \<open>smooth_x\<close>; the exception of the
  chosen algorithm is not propagated. (Only an exception of the linear interpolation
  itself would be.)
\<close>

theorem failed_interpolation_falls_back_to_linear:
  "2 \<le> length x_list
    \<and> linspace (Min (set x_list)) (Max (set x_list)) num_points = Inr smooth_x
    \<and> (method, alg) \<in> set [(''linear'', Interp1d ''linear''), (''quadratic'', Interp1d ''quadratic''),
                             (''cubic'', Interp1d ''cubic''), (''akima'', Akima1DInterpolator)]
    \<and> lib alg x_list y_list smooth_x = Inl e
   \<longrightarrow> smooth_curve lib x_list y_list method num_points =
         (case lib (Interp1d ''linear'') x_list y_list smooth_x of
            Inl e' \<Rightarrow> Inl (LibraryError e')
          | Inr smooth_y \<Rightarrow> Inr (smooth_x, smooth_y))"
proof
  assume a: "2 \<le> length x_list
    \<and> linspace (Min (set x_list)) (Max (set x_list)) num_points = Inr smooth_x
    \<and> (method, alg) \<in> set [(''linear'', Interp1d ''linear''), (''quadratic'', Interp1d ''quadratic''),
                             (''cubic'', Interp1d ''cubic''), (''akima'', Akima1DInterpolator)]
    \<and> lib alg x_list y_list smooth_x = Inl e"
  then have "method = ''linear'' \<and> alg = Interp1d ''linear''
      \<or> method = ''quadratic'' \<and> alg = Interp1d ''quadratic''
      \<or> method = ''cubic'' \<and> alg = Interp1d ''cubic''
      \<or> method = ''akima'' \<and> alg = Akima1DInterpolator"
    by simp
  moreover from a have "lib alg x_list y_list smooth_x = Inl e" by simp
  ultimately have "try_body lib x_list y_list method smooth_x = Inl (LibraryError e)"
    by (elim disjE conjE) (simp_all add: try_body_def raised_def)
  moreover from a have "smooth_curve lib x_list y_list method num_points =
           (case try_body lib x_list y_list method smooth_x of
              Inr smooth_y \<Rightarrow> Inr (smooth_x, smooth_y)
            | Inl e \<Rightarrow>
                (case lib (Interp1d ''linear'') x_list y_list smooth_x of
                   Inl e' \<Rightarrow> Inl (LibraryError e')
                 | Inr smooth_y \<Rightarrow> Inr (smooth_x, smooth_y)))"
    by (intro smooth_curve_unfold) simp_all
  ultimately show "smooth_curve lib x_list y_list method num_points =
         (case lib (Interp1d ''linear'') x_list y_list smooth_x of
            Inl e' \<Rightarrow> Inl (LibraryError e')
          | Inr smooth_y \<Rightarrow> Inr (smooth_x, smooth_y))"
    by simp
qed

theorem failed_interpolation_falls_back_to_linear_witness:
  "linspace (Min (set [0, 1])) (Max (set [0, 1])) 3 = Inr [0, 1 / 2, 1]
   \<and> short_series_library (Interp1d ''cubic'') [0, 1] [0, 1] [0, 1 / 2, 1]
       = Inl ''too few points for this kind''
   \<and> short_series_library (Interp1d ''linear'') [0, 1] [0, 1] [0, 1 / 2, 1] = Inr [0, 1 / 2, 1]
   \<and> smooth_curve short_series_library [0, 1] [0, 1] ''cubic'' 3
       = Inr ([0, 1 / 2, 1], [0, 1 / 2, 1])"
proof -
  have a: "2 \<le> length [0, 1 :: rat]" by simp
  have b: "linspace (Min (set [0, 1])) (Max (set [0, 1])) 3 = Inr [0, 1 / 2, 1]"
    by (simp add: linspace_def upt_conv_Cons)
  have c: "(''cubic'', Interp1d ''cubic'')
             \<in> set [(''linear'', Interp1d ''linear''), (''quadratic'', Interp1d ''quadratic''),
                    (''cubic'', Interp1d ''cubic''), (''akima'', Akima1DInterpolator)]"
    by simp
  have d: "short_series_library (Interp1d ''cubic'') [0, 1] [0, 1] [0, 1 / 2, 1]
             = Inl ''too few points for this kind''"
    by (simp add: short_series_library_def library_with_def)
  have e: "short_series_library (Interp1d ''linear'') [0, 1] [0, 1] [0, 1 / 2, 1] = Inr [0, 1 / 2, 1]"
    by (simp add: short_series_library_def library_with_def interp1d_linear_unit)
  from a b c d have pre: "2 \<le> length [0, 1 :: rat]
    \<and> linspace (Min (set [0, 1])) (Max (set [0, 1])) 3 = Inr [0, 1 / 2, 1]
    \<and> (''cubic'', Interp1d ''cubic'')
             \<in> set [(''linear'', Interp1d ''linear''), (''quadratic'', Interp1d ''quadratic''),
                    (''cubic'', Interp1d ''cubic''), (''akima'', Akima1DInterpolator)]
    \<and> short_series_library (Interp1d ''cubic'') [0, 1] [0, 1] [0, 1 / 2, 1]
             = Inl ''too few points for this kind''"
    by (intro conjI)
  have "smooth_curve short_series_library [0, 1] [0, 1] ''cubic'' 3 =
         (case short_series_library (Interp1d ''linear'') [0, 1] [0, 1] [0, 1 / 2, 1] of
            Inl e' \<Rightarrow> Inl (LibraryError e')
          | Inr smooth_y \<Rightarrow> Inr ([0, 1 / 2, 1], smooth_y))"
    by (rule mp [OF failed_interpolation_falls_back_to_linear
          [of "[0, 1]" 3 "[0, 1 / 2, 1]" "''cubic''" "Interp1d ''cubic''"
              short_series_library "[0, 1]" "''too few points for this kind''"] pre])
  then have "smooth_curve short_series_library [0, 1] [0, 1] ''cubic'' 3
       = Inr ([0, 1 / 2, 1], [0, 1 / 2, 1])"
    by (simp only: e sum.case)
  with b d e show ?thesis by (intro conjI)
qed

subsection \<open>The samples of the smoother\<close>



subsection \<open>Lines with repeated spaces\<close>

text \<open>
  C10. The line \<^verbatim>\<open>1  2\<close>, two numbers separated by two spaces, is split at each
  space into three parts, the second of them empty; the empty part is not a float, and
  the parser fails with the parse error of line 1 instead of returning the two numbers.
\<close>

theorem double_space_line_fails:
  "split_line ''1  2'' = [''1'', [], ''2''] \<and> py_float [] = None
   \<and> parse_input_data py_float ''1  2'' = Inl (ParseError 1 (FloatConversion []))
   \<and> parse_input_data py_float (''1  2'' @ [newline] @ ''3 4'')
       = Inl (ParseError 1 (FloatConversion []))"
  by code_simp

end
